theory Spec2Isabelle
  imports Complex_Main "HOL-Library.Sublist" "HOL-Library.Log_Nat"
begin

section \<open>JavaScript numbers\<close>

text \<open>
  Every quantity of the geometry code is a JavaScript \<^verbatim>\<open>number\<close>. The model keeps the
  three non-finite values apart from the finite ones, because the code divides by DOM
  attributes (\<^verbatim>\<open>image.height\<close>, \<^verbatim>\<open>image.width\<close>) that can be zero. The sign of zero is not
  tracked; every divisor in the program is an unsigned DOM attribute, so a zero divisor is
  \<open>+0\<close>.

  Two arithmetics are given. The operators \<open>*\<close>, \<open>/\<close> and \<open>-\<close> on \<open>jsnum\<close> compute on exact
  reals (\<open>inverse\<close> is there only because \<open>/\<close> belongs to its class); the compositor uses
  them, its results being drawing coordinates that are never floored. \<open>mul64\<close> and \<open>div64\<close>
  round every result to binary64, to nearest with ties to even; the crop transform uses
  them, because it floors a product and one rounding there changes the pixel count.
\<close>

datatype jsnum = Fin real | PInf | NInf | NaN

instantiation jsnum :: "{times, inverse, minus}"
begin

fun times_jsnum :: "jsnum \<Rightarrow> jsnum \<Rightarrow> jsnum" where
  "times_jsnum NaN b = NaN"
| "times_jsnum a NaN = NaN"
| "times_jsnum (Fin a) (Fin b) = Fin (a * b)"
| "times_jsnum (Fin a) PInf = (if 0 < a then PInf else if a < 0 then NInf else NaN)"
| "times_jsnum (Fin a) NInf = (if 0 < a then NInf else if a < 0 then PInf else NaN)"
| "times_jsnum PInf (Fin b) = (if 0 < b then PInf else if b < 0 then NInf else NaN)"
| "times_jsnum NInf (Fin b) = (if 0 < b then NInf else if b < 0 then PInf else NaN)"
| "times_jsnum PInf PInf = PInf"
| "times_jsnum PInf NInf = NInf"
| "times_jsnum NInf PInf = NInf"
| "times_jsnum NInf NInf = PInf"

fun divide_jsnum :: "jsnum \<Rightarrow> jsnum \<Rightarrow> jsnum" where
  "divide_jsnum NaN b = NaN"
| "divide_jsnum a NaN = NaN"
| "divide_jsnum (Fin a) (Fin b) =
     (if b \<noteq> 0 then Fin (a / b)
      else if 0 < a then PInf else if a < 0 then NInf else NaN)"
| "divide_jsnum (Fin a) PInf = Fin 0"
| "divide_jsnum (Fin a) NInf = Fin 0"
| "divide_jsnum PInf (Fin b) = (if 0 \<le> b then PInf else NInf)"
| "divide_jsnum NInf (Fin b) = (if 0 \<le> b then NInf else PInf)"
| "divide_jsnum PInf PInf = NaN"
| "divide_jsnum PInf NInf = NaN"
| "divide_jsnum NInf PInf = NaN"
| "divide_jsnum NInf NInf = NaN"

definition inverse_jsnum :: "jsnum \<Rightarrow> jsnum" where
  "inverse_jsnum a = divide (Fin 1) a"

fun minus_jsnum :: "jsnum \<Rightarrow> jsnum \<Rightarrow> jsnum" where
  "minus_jsnum NaN b = NaN"
| "minus_jsnum a NaN = NaN"
| "minus_jsnum (Fin a) (Fin b) = Fin (a - b)"
| "minus_jsnum (Fin a) PInf = NInf"
| "minus_jsnum (Fin a) NInf = PInf"
| "minus_jsnum PInf (Fin b) = PInf"
| "minus_jsnum NInf (Fin b) = NInf"
| "minus_jsnum PInf PInf = NaN"
| "minus_jsnum PInf NInf = PInf"
| "minus_jsnum NInf PInf = NInf"
| "minus_jsnum NInf NInf = NaN"

instance ..

end

text \<open>\<^verbatim>\<open>a > b\<close>: false as soon as one side is \<^verbatim>\<open>NaN\<close>.\<close>

fun js_gt :: "jsnum \<Rightarrow> jsnum \<Rightarrow> bool" where
  "js_gt NaN b = False"
| "js_gt a NaN = False"
| "js_gt (Fin a) (Fin b) = (b < a)"
| "js_gt PInf PInf = False"
| "js_gt PInf b = True"
| "js_gt a NInf = (a \<noteq> NInf)"
| "js_gt a PInf = False"
| "js_gt NInf b = False"

text \<open>\<^verbatim>\<open>Math.floor\<close>: the non-finite values are returned as they are.\<close>

fun js_floor :: "jsnum \<Rightarrow> jsnum" where
  "js_floor (Fin a) = Fin (of_int \<lfloor>a\<rfloor>)"
| "js_floor a = a"

subsection \<open>Rounding to binary64\<close>

text \<open>The integer nearest to \<open>m\<close>, the even one of the two when \<open>m\<close> lies halfway.\<close>

definition round_half_even :: "real \<Rightarrow> int" where
  "round_half_even m =
     (let f = \<lfloor>m\<rfloor>; d = m - of_int f
      in if d < 1 / 2 then f else if 1 / 2 < d then f + 1 else if even f then f else f + 1)"

text \<open>The binary exponent of \<open>x \<noteq> 0\<close>: the \<open>e\<close> with \<open>2^e \<le> |x| < 2^(e+1)\<close>.\<close>

definition ilog2 :: "real \<Rightarrow> int" where
  "ilog2 x =
     (if 1 \<le> \<bar>x\<bar> then bitlen \<lfloor>\<bar>x\<bar>\<rfloor> - 1 else - bitlen (\<lceil>1 / \<bar>x\<bar>\<rceil> - 1))"

text \<open>
  The binary64 number nearest to the real \<open>x\<close>: 53 significant bits, the exponent of the
  last bit not below \<open>-1074\<close> (subnormal numbers), and infinity from \<open>2^1024\<close> on.
\<close>

definition round64 :: "real \<Rightarrow> jsnum" where
  "round64 x =
     (if x = 0 then Fin 0
      else
        (let q = max (ilog2 x) (- 1022) - 52;
             y = of_int (round_half_even (x / 2 powi q)) * 2 powi q
         in if 2 ^ 1024 \<le> \<bar>y\<bar> then (if 0 < x then PInf else NInf) else Fin y))"

text \<open>\<^verbatim>\<open>a * b\<close> and \<^verbatim>\<open>a / b\<close> in binary64.\<close>

fun mul64 :: "jsnum \<Rightarrow> jsnum \<Rightarrow> jsnum" where
  "mul64 (Fin a) (Fin b) = round64 (a * b)"
| "mul64 a b = a * b"

fun div64 :: "jsnum \<Rightarrow> jsnum \<Rightarrow> jsnum" where
  "div64 (Fin a) (Fin b) = (if b \<noteq> 0 then round64 (a / b) else Fin a / Fin b)"
| "div64 a b = a / b"

section \<open>The browser: images, canvases, data URLs\<close>

text \<open>
  A canvas is modelled by its two size attributes, the current fill style and the list of
  drawing calls made since its bitmap was last reset. A data URL is a string; the drawing
  calls name the image they read by the URL it was loaded from.
\<close>

datatype draw_call =
    FillRect string jsnum jsnum jsnum jsnum
  | DrawImage string jsnum jsnum jsnum jsnum
  | DrawImageSub string jsnum jsnum jsnum jsnum jsnum jsnum jsnum jsnum

record canvas =
  cwidth :: jsnum
  cheight :: jsnum
  fillStyle :: string
  calls :: "draw_call list"

text \<open>
  What the program asks of the browser and cannot compute itself:
  \<^item> \<open>decodeImage url\<close>: the outcome of \<^verbatim>\<open>image.src = url\<close> on a fresh \<^verbatim>\<open>Image\<close>;
    \<open>Some (w, h)\<close> fires \<^verbatim>\<open>onload\<close> with \<^verbatim>\<open>image.width = w\<close>, \<^verbatim>\<open>image.height = h\<close>,
    \<open>None\<close> fires \<^verbatim>\<open>onerror\<close>;
  \<^item> \<open>context2d\<close>: whether \<^verbatim>\<open>getContext('2d')\<close> returns a context;
  \<^item> \<open>toDataURL c\<close>: the PNG data URL of canvas \<open>c\<close>;
  \<^item> \<open>layoutImg url\<close>: natural and displayed size
    \<open>(naturalWidth, naturalHeight, width, height)\<close> of an \<^verbatim>\<open><img src=url>\<close> in the page.
\<close>

record browser =
  decodeImage :: "string \<Rightarrow> (nat \<times> nat) option"
  context2d :: bool
  toDataURL :: "canvas \<Rightarrow> string"
  layoutImg :: "string \<Rightarrow> nat \<times> nat \<times> nat \<times> nat"

text \<open>
  The setters of \<^verbatim>\<open>canvas.width\<close> and \<^verbatim>\<open>canvas.height\<close> take an \<^verbatim>\<open>unsigned long\<close>: the number
  is truncated towards zero and reduced modulo \<open>2^32\<close> (a non-finite number becomes 0), and
  a result above \<open>2^31 - 1\<close> is replaced by the default of the attribute.
\<close>

definition ToUint32 :: "jsnum \<Rightarrow> nat" where
  "ToUint32 v =
     (case v of
        Fin r \<Rightarrow> nat ((if 0 \<le> r then \<lfloor>r\<rfloor> else \<lceil>r\<rceil>) mod 2 ^ 32)
      | _ \<Rightarrow> 0)"

definition canvas_dimension :: "nat \<Rightarrow> jsnum \<Rightarrow> jsnum" where
  "canvas_dimension dflt v =
     (let n = ToUint32 v in Fin (real (if n \<le> 2147483647 then n else dflt)))"

text \<open>
  Assigning \<^verbatim>\<open>canvas.width\<close> or \<^verbatim>\<open>canvas.height\<close> also resets the bitmap and the context
  state (the fill style goes back to black). The defaults are 300 and 150.
\<close>

definition set_width :: "canvas \<Rightarrow> jsnum \<Rightarrow> canvas" where
  "set_width c v = c\<lparr>cwidth := canvas_dimension 300 v, fillStyle := ''#000000'', calls := []\<rparr>"

definition set_height :: "canvas \<Rightarrow> jsnum \<Rightarrow> canvas" where
  "set_height c v = c\<lparr>cheight := canvas_dimension 150 v, fillStyle := ''#000000'', calls := []\<rparr>"

definition fillRect :: "canvas \<Rightarrow> jsnum \<Rightarrow> jsnum \<Rightarrow> jsnum \<Rightarrow> jsnum \<Rightarrow> canvas" where
  "fillRect c x y w h = c\<lparr>calls := calls c @ [FillRect (fillStyle c) x y w h]\<rparr>"

definition drawImage :: "canvas \<Rightarrow> string \<Rightarrow> jsnum \<Rightarrow> jsnum \<Rightarrow> jsnum \<Rightarrow> jsnum \<Rightarrow> canvas" where
  "drawImage c img dx dy dw dh = c\<lparr>calls := calls c @ [DrawImage img dx dy dw dh]\<rparr>"

text \<open>\<^verbatim>\<open>document.createElement('canvas')\<close>: the default 300 by 150 canvas.\<close>

definition createCanvas :: canvas where
  "createCanvas = \<lparr>cwidth = Fin 300, cheight = Fin 150, fillStyle = ''#000000'', calls = []\<rparr>"

section \<open>The compositor\<close>

text \<open>
  The rectangle the compositor draws the source into: \<^verbatim>\<open>x\<close>, \<^verbatim>\<open>y\<close>, \<^verbatim>\<open>drawWidth\<close>,
  \<^verbatim>\<open>drawHeight\<close>.
\<close>

record draw_rect =
  rect_x :: jsnum
  rect_y :: jsnum
  drawWidth :: jsnum
  drawHeight :: jsnum

text \<open>
  \<^verbatim>\<open>processImageDataUrl\<close> of \<^verbatim>\<open>App.tsx\<close> (lines 213 to 225) and \<^verbatim>\<open>processAndSetImage\<close> of
  the single-image variant (lines 208 to 221) compute the rectangle with the same
  statements, branching on \<^verbatim>\<open>imageAspectRatio > 1\<close>.
\<close>

definition processImageDataUrl_rect :: "jsnum \<Rightarrow> nat \<Rightarrow> nat \<Rightarrow> draw_rect" where
  "processImageDataUrl_rect canvasSize w h =
     (let imageAspectRatio = Fin (real w) / Fin (real h);
          padding = Fin 0.9;
          (dw, dh) =
            (if js_gt imageAspectRatio (Fin 1)
             then (let dw' = canvasSize * padding in (dw', dw' / imageAspectRatio))
             else (let dh' = canvasSize * padding in (dh' * imageAspectRatio, dh')));
          x = (canvasSize - dw) / Fin 2;
          y = (canvasSize - dh) / Fin 2
      in \<lparr>rect_x = x, rect_y = y, drawWidth = dw, drawHeight = dh\<rparr>)"

text \<open>
  \<^verbatim>\<open>addBorderToImage\<close> of the gallery variant (lines 293 to 299) branches on
  \<^verbatim>\<open>image.width > image.height\<close> in two conditional expressions.
\<close>

definition addBorderToImage_rect :: "jsnum \<Rightarrow> nat \<Rightarrow> nat \<Rightarrow> draw_rect" where
  "addBorderToImage_rect canvasSize w h =
     (let imageAspectRatio = Fin (real w) / Fin (real h);
          padding = Fin 0.9;
          dw = (if h < w then canvasSize * padding
                else (canvasSize * padding) * imageAspectRatio);
          dh = (if h < w then (canvasSize * padding) / imageAspectRatio
                else canvasSize * padding);
          x = (canvasSize - dw) / Fin 2;
          y = (canvasSize - dh) / Fin 2
      in \<lparr>rect_x = x, rect_y = y, drawWidth = dw, drawHeight = dh\<rparr>)"

text \<open>
  The statements of the \<^verbatim>\<open>onload\<close> handler once canvas and context are at hand: size the
  canvas, paint it white, draw the image into its rectangle. They are the same in the
  three variants but for the rectangle.
\<close>

definition paint :: "(jsnum \<Rightarrow> nat \<Rightarrow> nat \<Rightarrow> draw_rect) \<Rightarrow> canvas \<Rightarrow> string \<Rightarrow> nat \<Rightarrow> nat \<Rightarrow> canvas" where
  "paint rect c url w h =
     (let canvasSize = Fin 1080;
          c1 = set_width c canvasSize;
          c2 = set_height c1 canvasSize;
          c3 = c2\<lparr>fillStyle := ''white''\<rparr>;
          c4 = fillRect c3 (Fin 0) (Fin 0) canvasSize canvasSize;
          r = rect canvasSize w h
      in drawImage c4 url (rect_x r) (rect_y r) (drawWidth r) (drawHeight r))"

text \<open>
  \<^verbatim>\<open>addBorderToImage\<close> (gallery variant): the promise resolves with the data URL of the
  shared canvas or rejects with a message. The shared canvas (\<^verbatim>\<open>canvasRef.current\<close>) is
  passed in and returned.
\<close>

definition addBorderToImage :: "browser \<Rightarrow> canvas option \<Rightarrow> string \<Rightarrow> canvas option \<times> (string + string)" where
  "addBorderToImage B cv imageDataUrl =
     (case decodeImage B imageDataUrl of
        None \<Rightarrow> (cv, Inl ''The image file could not be loaded.'')
      | Some (w, h) \<Rightarrow>
          (case cv of
             None \<Rightarrow> (cv, Inl ''Canvas element not found.'')
           | Some c \<Rightarrow>
               if \<not> context2d B then (cv, Inl ''Could not get canvas context.'')
               else (let c' = paint addBorderToImage_rect c imageDataUrl w h
                     in (Some c', Inr (toDataURL B c')))))"

text \<open>\<^verbatim>\<open>processImageDataUrl\<close> (\<^verbatim>\<open>App.tsx\<close>): the same, with its own load message.\<close>

definition processImageDataUrl :: "browser \<Rightarrow> canvas option \<Rightarrow> string \<Rightarrow> canvas option \<times> (string + string)" where
  "processImageDataUrl B cv imageDataUrl =
     (case decodeImage B imageDataUrl of
        None \<Rightarrow> (cv, Inl ''The image file could not be loaded. It may be corrupt or an unsupported format.'')
      | Some (w, h) \<Rightarrow>
          (case cv of
             None \<Rightarrow> (cv, Inl ''Canvas element not found.'')
           | Some c \<Rightarrow>
               if \<not> context2d B then (cv, Inl ''Could not get canvas context.'')
               else (let c' = paint processImageDataUrl_rect c imageDataUrl w h
                     in (Some c', Inr (toDataURL B c')))))"

section \<open>The crop transform\<close>

text \<open>
  An \<^verbatim>\<open>HTMLImageElement\<close> in the page: the URL it shows, its native size and the size it is
  displayed at.
\<close>

record img_element =
  src :: string
  naturalWidth :: nat
  naturalHeight :: nat
  width :: nat
  height :: nat

text \<open>
  \<^verbatim>\<open>Crop\<close> and \<^verbatim>\<open>PixelCrop\<close> of react-image-crop: a rectangle and its unit. The library
  hands finite numbers to the program, so the fields are reals.
\<close>

datatype crop_unit = Px | Percent

record Crop =
  crop_unit :: crop_unit
  crop_x :: real
  crop_y :: real
  crop_width :: real
  crop_height :: real

definition drawImageSub ::
  "canvas \<Rightarrow> string \<Rightarrow> jsnum \<Rightarrow> jsnum \<Rightarrow> jsnum \<Rightarrow> jsnum \<Rightarrow> jsnum \<Rightarrow> jsnum \<Rightarrow> jsnum \<Rightarrow> jsnum \<Rightarrow> canvas" where
  "drawImageSub c img sx sy sw sh dx dy dw dh =
     c\<lparr>calls := calls c @ [DrawImageSub img sx sy sw sh dx dy dw dh]\<rparr>"

text \<open>
  \<^verbatim>\<open>getCroppedImg\<close>: throws when no context is available, and otherwise returns the data URL
  of a fresh canvas holding the scaled region of the image. The divisions and products are
  binary64 operations; the canvas size is what the setters make of the floored products,
  read back for the destination rectangle.
\<close>

definition getCroppedImg :: "browser \<Rightarrow> img_element \<Rightarrow> Crop \<Rightarrow> string + string" where
  "getCroppedImg B img crop =
     (if \<not> context2d B then Inl ''Could not get canvas context for cropping.''
      else
        (let canvas = createCanvas;
             scaleX = div64 (Fin (real (naturalWidth img))) (Fin (real (width img)));
             scaleY = div64 (Fin (real (naturalHeight img))) (Fin (real (height img)));
             c1 = set_width canvas (js_floor (mul64 (Fin (crop_width crop)) scaleX));
             c2 = set_height c1 (js_floor (mul64 (Fin (crop_height crop)) scaleY));
             c3 = drawImageSub c2 (src img)
                    (mul64 (Fin (crop_x crop)) scaleX) (mul64 (Fin (crop_y crop)) scaleY)
                    (mul64 (Fin (crop_width crop)) scaleX) (mul64 (Fin (crop_height crop)) scaleY)
                    (Fin 0) (Fin 0) (cwidth c2) (cheight c2)
         in Inr (toDataURL B c3)))"

section \<open>The gallery\<close>

text \<open>
  A \<^verbatim>\<open>File\<close> of the file list: its MIME type and what \<^verbatim>\<open>FileReader.readAsDataURL\<close> makes
  of it (\<open>None\<close> when the reader fires \<^verbatim>\<open>onerror\<close>).
\<close>

record File =
  file_type :: string
  readAsDataURL :: "string option"

record ImageState =
  id' :: string
  originalSrc :: string
  formattedSrc :: string

text \<open>
  The component state the handlers read and write. \<open>ui_state\<close> holds what the gallery
  variant and \<^verbatim>\<open>App.tsx\<close> have in common.
\<close>

record ui_state =
  isLoading :: bool
  error :: "string option"
  canvasRef :: "canvas option"

record gallery_state = ui_state +
  images :: "ImageState list"
  currentImageIndex :: nat
  croppingImage :: "ImageState option"
  crop :: "Crop option"
  completedCrop :: "Crop option"
  cropAspectRatio :: "real option"
  imgRef :: "img_element option"

record urls_state = ui_state +
  formattedImageUrls :: "string list"

text \<open>
  \<^verbatim>\<open>Promise.all\<close>: the values in order when every promise resolves, a rejection otherwise.
  The model takes the first rejection in list order; in the browser it is the first one in
  time.
\<close>

fun promise_all :: "(string + 'a) list \<Rightarrow> string + 'a list" where
  "promise_all [] = Inr []"
| "promise_all (Inl e # ps) = Inl e"
| "promise_all (Inr v # ps) =
     (case promise_all ps of Inl e \<Rightarrow> Inl e | Inr vs \<Rightarrow> Inr (v # vs))"

definition readSingleFile :: "File \<Rightarrow> string + string" where
  "readSingleFile f =
     (case readAsDataURL f of
        Some result \<Rightarrow> Inr result
      | None \<Rightarrow> Inl ''Failed to read the selected file.'')"

text \<open>
  The promises \<^verbatim>\<open>imageDataUrls.map(async (url) => ...)\<close> of \<^verbatim>\<open>processAndAddImages\<close>. Every
  one of them runs, also after another has rejected; they share the canvas, which the
  model passes from each to the next in list order. \<open>uuid k\<close> is the identifier
  \<^verbatim>\<open>crypto.randomUUID()\<close> returns for the \<open>k\<close>-th URL.
\<close>

fun processEach ::
  "browser \<Rightarrow> (nat \<Rightarrow> string) \<Rightarrow> nat \<Rightarrow> canvas option \<Rightarrow> string list
     \<Rightarrow> canvas option \<times> (string + ImageState) list" where
  "processEach B uuid k cv [] = (cv, [])"
| "processEach B uuid k cv (url # urls) =
     (case addBorderToImage B cv url of
        (cv1, r) \<Rightarrow>
          (case processEach B uuid (Suc k) cv1 urls of
             (cv2, rs) \<Rightarrow>
               (cv2,
                (case r of
                   Inl e \<Rightarrow> Inl e
                 | Inr formattedSrc' \<Rightarrow>
                     Inr \<lparr>id' = uuid k, originalSrc = url, formattedSrc = formattedSrc'\<rparr>) # rs)))"

definition processAndAddImages ::
  "browser \<Rightarrow> (nat \<Rightarrow> string) \<Rightarrow> gallery_state \<Rightarrow> string list \<Rightarrow> gallery_state" where
  "processAndAddImages B uuid s imageDataUrls =
     (case processEach B uuid 0 (canvasRef s) imageDataUrls of
        (cv, rs) \<Rightarrow>
          (case promise_all rs of
             Inr newImages \<Rightarrow> s\<lparr>canvasRef := cv, images := images s @ newImages\<rparr>
           | Inl e \<Rightarrow> s\<lparr>canvasRef := cv, error := Some e\<rparr>))"

text \<open>The filter of \<^verbatim>\<open>handleFiles\<close>: \<^verbatim>\<open>file => file.type.startsWith('image/')\<close>.\<close>

definition isImageFile :: "File \<Rightarrow> bool" where
  "isImageFile f = prefix ''image/'' (file_type f)"

text \<open>
  \<^verbatim>\<open>handleFiles\<close> of the gallery variant. \<open>handleFiles_reset\<close> is its four state updates
  of lines 338 to 341, made before anything is filtered or read; \<open>handleFiles_read\<close> is
  the rest of the handler.
\<close>

definition handleFiles_reset :: "gallery_state \<Rightarrow> gallery_state" where
  "handleFiles_reset s = s\<lparr>isLoading := True, error := None, images := [], currentImageIndex := 0\<rparr>"

definition handleFiles_read ::
  "browser \<Rightarrow> (nat \<Rightarrow> string) \<Rightarrow> gallery_state \<Rightarrow> File list \<Rightarrow> gallery_state" where
  "handleFiles_read B uuid s files =
     (let imageFiles = filter isImageFile files
      in if imageFiles = []
         then s\<lparr>error := Some ''No valid image files selected.'', isLoading := False\<rparr>
         else
           (case promise_all (map readSingleFile imageFiles) of
              Inl e \<Rightarrow> s\<lparr>error := Some e, isLoading := False\<rparr>
            | Inr imageDataUrls \<Rightarrow>
                (processAndAddImages B uuid s imageDataUrls)\<lparr>isLoading := False\<rparr>))"

definition handleFiles ::
  "browser \<Rightarrow> (nat \<Rightarrow> string) \<Rightarrow> gallery_state \<Rightarrow> File list option \<Rightarrow> gallery_state" where
  "handleFiles B uuid s files =
     (case files of
        None \<Rightarrow> s
      | Some fs \<Rightarrow>
          if fs = [] then s
          else handleFiles_read B uuid (handleFiles_reset s) fs)"

text \<open>\<^verbatim>\<open>handleFiles\<close> of \<^verbatim>\<open>App.tsx\<close>, split in the same way (lines 247 to 249 reset).\<close>

fun processImageDataUrl_each ::
  "browser \<Rightarrow> canvas option \<Rightarrow> string list \<Rightarrow> canvas option \<times> (string + string) list" where
  "processImageDataUrl_each B cv [] = (cv, [])"
| "processImageDataUrl_each B cv (url # urls) =
     (case processImageDataUrl B cv url of
        (cv1, r) \<Rightarrow>
          (case processImageDataUrl_each B cv1 urls of
             (cv2, rs) \<Rightarrow> (cv2, r # rs)))"

definition handleFiles_reset_urls :: "urls_state \<Rightarrow> urls_state" where
  "handleFiles_reset_urls s = s\<lparr>isLoading := True, error := None, formattedImageUrls := []\<rparr>"

definition handleFiles_read_urls :: "browser \<Rightarrow> urls_state \<Rightarrow> File list \<Rightarrow> urls_state" where
  "handleFiles_read_urls B s files =
     (let imageFiles = filter isImageFile files
      in if imageFiles = []
         then s\<lparr>error := Some ''No valid image files selected. Please upload JPEG, PNG, or GIF files.'',
                isLoading := False\<rparr>
         else
           (case promise_all (map readSingleFile imageFiles) of
              Inl e \<Rightarrow> s\<lparr>error := Some e, isLoading := False\<rparr>
            | Inr imageDataUrls \<Rightarrow>
                (case processImageDataUrl_each B (canvasRef s) imageDataUrls of
                   (cv, rs) \<Rightarrow>
                     (case promise_all rs of
                        Inr processedUrls \<Rightarrow>
                          s\<lparr>canvasRef := cv, formattedImageUrls := processedUrls, isLoading := False\<rparr>
                      | Inl e \<Rightarrow> s\<lparr>canvasRef := cv, error := Some e, isLoading := False\<rparr>))))"

definition handleFiles_urls :: "browser \<Rightarrow> urls_state \<Rightarrow> File list option \<Rightarrow> urls_state" where
  "handleFiles_urls B s files =
     (case files of
        None \<Rightarrow> s
      | Some fs \<Rightarrow>
          if fs = [] then s
          else handleFiles_read_urls B (handleFiles_reset_urls s) fs)"

section \<open>Cropping an entry\<close>

definition handleCropClick :: "gallery_state \<Rightarrow> string \<Rightarrow> gallery_state" where
  "handleCropClick s ident =
     (case find (\<lambda>img. id' img = ident) (images s) of
        Some imageToCrop \<Rightarrow>
          s\<lparr>croppingImage := Some imageToCrop, cropAspectRatio := None, crop := None\<rparr>
      | None \<Rightarrow> s)"

text \<open>
  The crop dialog (JSX lines 460 to 477) shows \<^verbatim>\<open><img ref={imgRef} src={croppingImage.originalSrc}>\<close>
  while an entry is being cropped: rendering binds \<^verbatim>\<open>imgRef.current\<close> to that element,
  laid out by the browser.
\<close>

definition renderCropDialog :: "browser \<Rightarrow> gallery_state \<Rightarrow> gallery_state" where
  "renderCropDialog B s =
     s\<lparr>imgRef :=
          (case croppingImage s of
             None \<Rightarrow> None
           | Some ci \<Rightarrow>
               (case layoutImg B (originalSrc ci) of
                  (nw, nh, w, h) \<Rightarrow>
                    Some \<lparr>src = originalSrc ci, naturalWidth = nw, naturalHeight = nh,
                          width = w, height = h\<rparr>))\<rparr>"

definition handleApplyCrop :: "browser \<Rightarrow> gallery_state \<Rightarrow> gallery_state" where
  "handleApplyCrop B s =
     (case (croppingImage s, completedCrop s, imgRef s) of
        (Some ci, Some cc, Some el) \<Rightarrow>
          if crop_width cc = 0 \<or> crop_height cc = 0 then s\<lparr>croppingImage := None\<rparr>
          else
            (let s1 = s\<lparr>isLoading := True\<rparr>
             in case getCroppedImg B el cc of
                  Inl e \<Rightarrow> s1\<lparr>error := Some e, isLoading := False\<rparr>
                | Inr croppedImageUrl \<Rightarrow>
                    (case addBorderToImage B (canvasRef s1) croppedImageUrl of
                       (cv, Inl e) \<Rightarrow> s1\<lparr>canvasRef := cv, error := Some e, isLoading := False\<rparr>
                     | (cv, Inr newlyFormattedUrl) \<Rightarrow>
                         s1\<lparr>canvasRef := cv,
                            images :=
                              map (\<lambda>img. if id' img = id' ci
                                          then img\<lparr>formattedSrc := newlyFormattedUrl,
                                                   originalSrc := croppedImageUrl\<rparr>
                                          else img) (images s1),
                            croppingImage := None,
                            isLoading := False\<rparr>))
      | _ \<Rightarrow> s)"

section \<open>Concrete inputs\<close>

text \<open>
  A browser that decodes three URLs (a 1600 by 900 image, a 900 by 1600 image and a 100 by
  100 image), always has a 2D context, names the data URL of a composed canvas after the
  image drawn on it, and lays every \<^verbatim>\<open><img>\<close> out at 200 by 200 for 400 by 400 native
  pixels.
\<close>

definition demo_browser :: browser where
  "demo_browser =
     \<lparr>decodeImage = (\<lambda>u. if u = ''wide'' then Some (1600, 900)
                          else if u = ''tall'' then Some (900, 1600)
                          else if u = ''crop'' then Some (100, 100)
                          else None),
      context2d = True,
      toDataURL = (\<lambda>c. case calls c of
                           [FillRect f x y w h, DrawImage u dx dy dw dh] \<Rightarrow> ''framed-'' @ u
                         | _ \<Rightarrow> ''crop''),
      layoutImg = (\<lambda>u. (400, 400, 200, 200))\<rparr>"

text \<open>The identifiers drawn for the entries of a batch.\<close>

definition demo_uuid :: "nat \<Rightarrow> string" where
  "demo_uuid k = (if k = 0 then ''id0'' else ''id1'')"

text \<open>
  The \<^verbatim>\<open><img>\<close> of the crop dialog, 400 by 400 native pixels shown at 200 by 200, and three
  selections on it: one inside the image, one that leaves it at the right and at the
  bottom, and one of zero width.
\<close>

definition demo_img :: img_element where
  "demo_img = \<lparr>src = ''photo'', naturalWidth = 400, naturalHeight = 400, width = 200, height = 200\<rparr>"

definition demo_crop :: Crop where
  "demo_crop = \<lparr>crop_unit = Px, crop_x = 10, crop_y = 10, crop_width = 50, crop_height = 50\<rparr>"


definition empty_crop :: Crop where
  "empty_crop = \<lparr>crop_unit = Px, crop_x = 10, crop_y = 10, crop_width = 0, crop_height = 50\<rparr>"

text \<open>Files of a batch: two images, a text file, and an image file that does not decode.\<close>

definition png_file :: File where
  "png_file = \<lparr>file_type = ''image/png'', readAsDataURL = Some ''wide''\<rparr>"


definition text_file :: File where
  "text_file = \<lparr>file_type = ''text/plain'', readAsDataURL = Some ''notes''\<rparr>"

definition corrupt_file :: File where
  "corrupt_file = \<lparr>file_type = ''image/png'', readAsDataURL = Some ''junk''\<rparr>"

text \<open>
  The state after mounting (the \<^verbatim>\<open>useState\<close> defaults, the hidden canvas in place), a
  gallery of two entries, and that gallery with the crop dialog open on its first entry.
\<close>

definition initial_state :: gallery_state where
  "initial_state =
     \<lparr>isLoading = False, error = None, canvasRef = Some createCanvas,
      images = [], currentImageIndex = 0, croppingImage = None, crop = None,
      completedCrop = None, cropAspectRatio = None, imgRef = None\<rparr>"

definition entry_a :: ImageState where
  "entry_a = \<lparr>id' = ''a'', originalSrc = ''wide'', formattedSrc = ''framed-wide''\<rparr>"

definition entry_b :: ImageState where
  "entry_b = \<lparr>id' = ''b'', originalSrc = ''tall'', formattedSrc = ''framed-tall''\<rparr>"

definition demo_gallery :: gallery_state where
  "demo_gallery = initial_state\<lparr>images := [entry_a, entry_b]\<rparr>"

definition cropping_state :: "ImageState \<Rightarrow> Crop \<Rightarrow> gallery_state" where
  "cropping_state e c =
     demo_gallery\<lparr>croppingImage := Some e, completedCrop := Some c, imgRef := Some demo_img\<rparr>"

definition initial_urls_state :: urls_state where
  "initial_urls_state =
     \<lparr>isLoading = False, error = None, canvasRef = Some createCanvas, formattedImageUrls = []\<rparr>"

definition demo_urls_state :: urls_state where
  "demo_urls_state = initial_urls_state\<lparr>formattedImageUrls := [''framed-wide'']\<rparr>"

text \<open>An entry that is not in the gallery.\<close>

definition ghost_entry :: ImageState where
  "ghost_entry = \<lparr>id' = ''zzz'', originalSrc = ''wide'', formattedSrc = ''framed-wide''\<rparr>"

section \<open>The compositor: geometry and output size\<close>

lemma rects_agree: "processImageDataUrl_rect cs w h = addBorderToImage_rect cs w h"
  unfolding processImageDataUrl_rect_def addBorderToImage_rect_def Let_def
  by (cases "h = 0") auto

lemma rect_1600x900:
  "addBorderToImage_rect (Fin 1080) 1600 900 =
     \<lparr>rect_x = Fin 54, rect_y = Fin 266.625, drawWidth = Fin 972, drawHeight = Fin 546.75\<rparr>"
  by (simp add: addBorderToImage_rect_def Let_def)

lemma paint_calls:
  "calls (paint rect c url w h) =
     [FillRect ''white'' (Fin 0) (Fin 0) (Fin 1080) (Fin 1080),
      DrawImage url (rect_x (rect (Fin 1080) w h)) (rect_y (rect (Fin 1080) w h))
        (drawWidth (rect (Fin 1080) w h)) (drawHeight (rect (Fin 1080) w h))]"
  by (simp add: paint_def Let_def set_width_def set_height_def fillRect_def drawImage_def)

lemma canvas_dimension_1080: "canvas_dimension d (Fin 1080) = Fin 1080"
  by (simp add: canvas_dimension_def ToUint32_def)

lemma paint_size:
  "cwidth (paint rect c url w h) = Fin 1080 \<and> cheight (paint rect c url w h) = Fin 1080"
  by (simp add: paint_def Let_def set_width_def set_height_def fillRect_def drawImage_def
      canvas_dimension_1080)

lemma addBorderToImage_ok:
  "decodeImage B url = Some (w, h) \<Longrightarrow> context2d B \<Longrightarrow>
   addBorderToImage B (Some c) url =
     (Some (paint addBorderToImage_rect c url w h),
      Inr (toDataURL B (paint addBorderToImage_rect c url w h)))"
  by (simp add: addBorderToImage_def Let_def)

lemma processImageDataUrl_ok:
  "decodeImage B url = Some (w, h) \<Longrightarrow> context2d B \<Longrightarrow>
   processImageDataUrl B (Some c) url =
     (Some (paint processImageDataUrl_rect c url w h),
      Inr (toDataURL B (paint processImageDataUrl_rect c url w h)))"
  by (simp add: processImageDataUrl_def Let_def)

text \<open>
  Claim C1. A 1600 by 900 source composed on the 1080 canvas with padding 0.9 is drawn with
  \<open>drawWidth = 972\<close> and \<open>drawHeight = 546.75\<close> at \<open>x = 54\<close>, \<open>y = 266.625\<close>: these are the
  arguments of the one \<^verbatim>\<open>drawImage\<close> call on the white canvas, in the gallery variant and
  in \<^verbatim>\<open>App.tsx\<close> alike.
\<close>

theorem compose_1600x900:
  assumes "decodeImage B url = Some (1600, 900)" and "context2d B"
  shows "(\<exists>c'. addBorderToImage B (Some c) url = (Some c', Inr (toDataURL B c')) \<and>
            calls c' = [FillRect ''white'' (Fin 0) (Fin 0) (Fin 1080) (Fin 1080),
                        DrawImage url (Fin 54) (Fin 266.625) (Fin 972) (Fin 546.75)]) \<and>
         (\<exists>c'. processImageDataUrl B (Some c) url = (Some c', Inr (toDataURL B c')) \<and>
            calls c' = [FillRect ''white'' (Fin 0) (Fin 0) (Fin 1080) (Fin 1080),
                        DrawImage url (Fin 54) (Fin 266.625) (Fin 972) (Fin 546.75)]) \<and>
         drawWidth (addBorderToImage_rect (Fin 1080) 1600 900) = Fin 972 \<and>
         drawHeight (addBorderToImage_rect (Fin 1080) 1600 900) = Fin 546.75 \<and>
         drawWidth (processImageDataUrl_rect (Fin 1080) 1600 900) = Fin 972 \<and>
         drawHeight (processImageDataUrl_rect (Fin 1080) 1600 900) = Fin 546.75"
  using assms
  by (simp add: addBorderToImage_ok processImageDataUrl_ok paint_calls rects_agree rect_1600x900)

theorem compose_1600x900_witness:
  "decodeImage demo_browser ''wide'' = Some (1600, 900) \<and> context2d demo_browser \<and>
   addBorderToImage demo_browser (Some createCanvas) ''wide'' =
     (Some \<lparr>cwidth = Fin 1080, cheight = Fin 1080, fillStyle = ''white'',
            calls = [FillRect ''white'' (Fin 0) (Fin 0) (Fin 1080) (Fin 1080),
                     DrawImage ''wide'' (Fin 54) (Fin 266.625) (Fin 972) (Fin 546.75)]\<rparr>,
      Inr ''framed-wide'')"
proof -
  have d: "decodeImage demo_browser ''wide'' = Some (1600, 900)"
    by (simp add: demo_browser_def)
  have c: "context2d demo_browser"
    by (simp add: demo_browser_def)
  from compose_1600x900 [OF d c, of createCanvas]
  obtain c' where r: "addBorderToImage demo_browser (Some createCanvas) ''wide'' =
        (Some c', Inr (toDataURL demo_browser c'))"
    and k: "calls c' = [FillRect ''white'' (Fin 0) (Fin 0) (Fin 1080) (Fin 1080),
                     DrawImage ''wide'' (Fin 54) (Fin 266.625) (Fin 972) (Fin 546.75)]"
    by blast
  have "c' = paint addBorderToImage_rect createCanvas ''wide'' 1600 900"
    using r by (simp add: addBorderToImage_ok [OF d c])
  then have "c' = \<lparr>cwidth = Fin 1080, cheight = Fin 1080, fillStyle = ''white'', calls = calls c'\<rparr>"
    by (simp add: paint_def Let_def set_width_def set_height_def fillRect_def drawImage_def
        createCanvas_def canvas_dimension_1080)
  with r k d c show ?thesis by (simp add: demo_browser_def)
qed

text \<open>
  Claim C2. Whatever the width and height of a source that decodes, the compositor
  resolves with the data URL of a canvas that is 1080 by 1080 (the canvas and its context
  being at hand, without which it rejects).
\<close>

theorem output_is_canvasSize_square:
  assumes "decodeImage B url = Some (w, h)" and "context2d B"
  shows "(\<exists>c'. addBorderToImage B (Some c) url = (Some c', Inr (toDataURL B c')) \<and>
            cwidth c' = Fin 1080 \<and> cheight c' = Fin 1080) \<and>
         (\<exists>c'. processImageDataUrl B (Some c) url = (Some c', Inr (toDataURL B c')) \<and>
            cwidth c' = Fin 1080 \<and> cheight c' = Fin 1080)"
  using assms by (simp add: addBorderToImage_ok processImageDataUrl_ok paint_size)

theorem output_is_canvasSize_square_witness:
  "decodeImage demo_browser ''tall'' = Some (900, 1600) \<and> context2d demo_browser \<and>
   (\<exists>c'. addBorderToImage demo_browser (Some createCanvas) ''tall'' =
            (Some c', Inr (toDataURL demo_browser c')) \<and>
          cwidth c' = Fin 1080 \<and> cheight c' = Fin 1080)"
proof -
  have d: "decodeImage demo_browser ''tall'' = Some (900, 1600)"
    by (simp add: demo_browser_def)
  have c: "context2d demo_browser"
    by (simp add: demo_browser_def)
  show ?thesis
    using d c output_is_canvasSize_square [OF d c, of createCanvas] by blast
qed

text \<open>
  Claim C3, as stated: for \<open>width \<ge> height\<close> the drawn height is \<open>canvasSize * padding\<close>.
  The 1600 by 900 source of claim C1 refutes it: its drawn height is 546.75, not 972.
\<close>

theorem landscape_height_counterexample:
  "(900::nat) \<le> 1600 \<and>
   drawHeight (addBorderToImage_rect (Fin 1080) 1600 900) \<noteq> Fin 1080 * Fin 0.9 \<and>
   drawHeight (processImageDataUrl_rect (Fin 1080) 1600 900) \<noteq> Fin 1080 * Fin 0.9"
  by (simp add: rects_agree rect_1600x900)

lemma rect_portrait:
  assumes "0 < h" and "w \<le> h"
  shows "addBorderToImage_rect (Fin 1080) w h =
     \<lparr>rect_x = Fin ((1080 - 972 * (real w / real h)) / 2), rect_y = Fin 54,
      drawWidth = Fin (972 * (real w / real h)), drawHeight = Fin 972\<rparr>"
  using assms by (simp add: addBorderToImage_rect_def Let_def)

lemma rect_landscape:
  assumes "0 < h" and "h < w"
  shows "addBorderToImage_rect (Fin 1080) w h =
     \<lparr>rect_x = Fin 54, rect_y = Fin ((1080 - 972 / (real w / real h)) / 2),
      drawWidth = Fin 972, drawHeight = Fin (972 / (real w / real h))\<rparr>"
  using assms by (simp add: addBorderToImage_rect_def Let_def)

text \<open>
  Claim C3, amended: the height is the constrained side when \<open>width \<le> height\<close>. Then
  \<open>drawHeight = canvasSize * padding\<close>, \<open>drawWidth = drawHeight * aspect\<close> and
  \<open>drawWidth \<le> canvasSize\<close>. When \<open>width > height\<close> the sides swap roles:
  \<open>drawWidth = canvasSize * padding\<close> and \<open>drawHeight = drawWidth / aspect\<close>, which is
  below \<open>canvasSize * padding\<close>. The two variants of the compositor draw the same
  rectangle.
\<close>

theorem draw_rect_by_orientation:
  assumes "0 < h"
  shows "processImageDataUrl_rect (Fin 1080) w h = addBorderToImage_rect (Fin 1080) w h \<and>
         (w \<le> h \<longrightarrow>
            drawHeight (addBorderToImage_rect (Fin 1080) w h) = Fin 1080 * Fin 0.9 \<and>
            drawWidth (addBorderToImage_rect (Fin 1080) w h) =
              drawHeight (addBorderToImage_rect (Fin 1080) w h) * (Fin (real w) / Fin (real h)) \<and>
            (\<exists>d. drawWidth (addBorderToImage_rect (Fin 1080) w h) = Fin d \<and> d \<le> 1080)) \<and>
         (h < w \<longrightarrow>
            drawWidth (addBorderToImage_rect (Fin 1080) w h) = Fin 1080 * Fin 0.9 \<and>
            drawHeight (addBorderToImage_rect (Fin 1080) w h) =
              drawWidth (addBorderToImage_rect (Fin 1080) w h) / (Fin (real w) / Fin (real h)) \<and>
            drawWidth (addBorderToImage_rect (Fin 1080) w h) =
              drawHeight (addBorderToImage_rect (Fin 1080) w h) * (Fin (real w) / Fin (real h)) \<and>
            (\<exists>d. drawHeight (addBorderToImage_rect (Fin 1080) w h) = Fin d \<and> d < 1080 * 0.9))"
proof (intro conjI impI)
  show "processImageDataUrl_rect (Fin 1080) w h = addBorderToImage_rect (Fin 1080) w h"
    by (rule rects_agree)
next
  assume p: "w \<le> h"
  note r = rect_portrait [OF assms p]
  show "drawHeight (addBorderToImage_rect (Fin 1080) w h) = Fin 1080 * Fin 0.9"
    by (simp add: r)
  show "drawWidth (addBorderToImage_rect (Fin 1080) w h) =
        drawHeight (addBorderToImage_rect (Fin 1080) w h) * (Fin (real w) / Fin (real h))"
    using assms by (simp add: r)
  have "real w / real h \<le> 1"
    using assms p by simp
  then have "972 * (real w / real h) \<le> 1080"
    by simp
  then show "\<exists>d. drawWidth (addBorderToImage_rect (Fin 1080) w h) = Fin d \<and> d \<le> 1080"
    by (simp add: r)
next
  assume l: "h < w"
  note r = rect_landscape [OF assms l]
  show "drawWidth (addBorderToImage_rect (Fin 1080) w h) = Fin 1080 * Fin 0.9"
    by (simp add: r)
  show "drawHeight (addBorderToImage_rect (Fin 1080) w h) =
        drawWidth (addBorderToImage_rect (Fin 1080) w h) / (Fin (real w) / Fin (real h))"
    using assms l by (simp add: r)
  show "drawWidth (addBorderToImage_rect (Fin 1080) w h) =
        drawHeight (addBorderToImage_rect (Fin 1080) w h) * (Fin (real w) / Fin (real h))"
    using assms l by (simp add: r)
  have "real h < real w" and "0 < real w"
    using assms l by simp_all
  then have "972 / (real w / real h) < 972"
    by (simp add: pos_divide_less_eq)
  then show "\<exists>d. drawHeight (addBorderToImage_rect (Fin 1080) w h) = Fin d \<and> d < 1080 * 0.9"
    by (simp add: r)
qed

theorem draw_rect_by_orientation_witness:
  "(0::nat) < 1600 \<and> (900::nat) \<le> 1600 \<and>
   drawHeight (addBorderToImage_rect (Fin 1080) 900 1600) = Fin 972 \<and>
   drawWidth (addBorderToImage_rect (Fin 1080) 900 1600) = Fin 546.75 \<and>
   (0::nat) < 900 \<and> (900::nat) < 1600 \<and>
   drawWidth (addBorderToImage_rect (Fin 1080) 1600 900) = Fin 972 \<and>
   drawHeight (addBorderToImage_rect (Fin 1080) 1600 900) = Fin 546.75"
  using draw_rect_by_orientation [of 1600 900] draw_rect_by_orientation [of 900 1600]
  by simp

section \<open>Cropping: native region, empty regions, bounds\<close>

subsection \<open>Evaluating the setters and the binary64 operations\<close>


lemmas round64_eval = round64_def ilog2_def compute_bitlen round_half_even_def Let_def

lemma div64_400_200: "div64 (Fin 400) (Fin 200) = Fin 2"
  by (simp add: round64_eval)

lemma mul64_by_2:
  "mul64 (Fin 10) (Fin 2) = Fin 20" "mul64 (Fin 50) (Fin 2) = Fin 100"
  "mul64 (Fin 150) (Fin 2) = Fin 300" "mul64 (Fin 100) (Fin 2) = Fin 200"
  by (simp_all add: round64_eval)

lemma div64_1920_440: "div64 (Fin 1920) (Fin 440) = Fin (1228254443828317 / 281474976710656)"
  by (simp add: round64_eval)

lemma mul64_440: "mul64 (Fin 440) (Fin (1228254443828317 / 281474976710656)) = Fin (8444249301319679 / 4398046511104)"
  by (simp add: round64_eval)

lemma neg_dim: "canvas_dimension 300 (Fin (- 20)) = Fin 300" "canvas_dimension 300 NaN = Fin 0"
  "canvas_dimension 150 (Fin 2147483648) = Fin 150"
  by (simp_all add: canvas_dimension_def ToUint32_def)

subsection \<open>Bounds on the rounding\<close>











subsection \<open>The canvas of a crop\<close>

lemma mul64_0: "mul64 (Fin 0) (Fin b) = Fin 0"
  by (simp add: round64_def)

lemma mul64_neg: "mul64 (Fin (- 10)) (Fin 2) = Fin (- 20)"
  by (simp add: round64_eval)

lemma crop_canvas:
  assumes "context2d B"
  shows "getCroppedImg B img c =
     Inr (toDataURL B
       \<lparr>cwidth = canvas_dimension 300 (js_floor (mul64 (Fin (crop_width c))
                   (div64 (Fin (real (naturalWidth img))) (Fin (real (width img)))))),
        cheight = canvas_dimension 150 (js_floor (mul64 (Fin (crop_height c))
                   (div64 (Fin (real (naturalHeight img))) (Fin (real (height img)))))),
        fillStyle = ''#000000'',
        calls = [DrawImageSub (src img)
                   (mul64 (Fin (crop_x c)) (div64 (Fin (real (naturalWidth img))) (Fin (real (width img)))))
                   (mul64 (Fin (crop_y c)) (div64 (Fin (real (naturalHeight img))) (Fin (real (height img)))))
                   (mul64 (Fin (crop_width c)) (div64 (Fin (real (naturalWidth img))) (Fin (real (width img)))))
                   (mul64 (Fin (crop_height c)) (div64 (Fin (real (naturalHeight img))) (Fin (real (height img)))))
                   (Fin 0) (Fin 0)
                   (canvas_dimension 300 (js_floor (mul64 (Fin (crop_width c))
                      (div64 (Fin (real (naturalWidth img))) (Fin (real (width img)))))))
                   (canvas_dimension 150 (js_floor (mul64 (Fin (crop_height c))
                      (div64 (Fin (real (naturalHeight img))) (Fin (real (height img)))))))]\<rparr>)"
  using assms
  by (simp add: getCroppedImg_def Let_def createCanvas_def set_width_def set_height_def
      drawImageSub_def)

lemma crop_demo_canvas:
  assumes "context2d B"
  shows "getCroppedImg B demo_img demo_crop =
           Inr (toDataURL B
             \<lparr>cwidth = Fin 100, cheight = Fin 100, fillStyle = ''#000000'',
              calls = [DrawImageSub ''photo'' (Fin 20) (Fin 20) (Fin 100) (Fin 100)
                         (Fin 0) (Fin 0) (Fin 100) (Fin 100)]\<rparr>)"
  by (simp add: crop_canvas [OF assms] demo_img_def demo_crop_def div64_400_200 mul64_by_2
      canvas_dimension_def ToUint32_def del: div64.simps mul64.simps)


text \<open>
  The rounding shows: the full frame of a 1920 pixel wide image displayed at 440 pixels is
  cropped to 1919 pixels, because \<open>1920 / 440\<close> rounds down and \<open>440\<close> times the quotient
  stays below 1920.
\<close>

lemma crop_full_frame_1920_at_440:
  assumes "context2d B"
  shows "getCroppedImg B
           \<lparr>src = u, naturalWidth = 1920, naturalHeight = 1920, width = 440, height = 440\<rparr>
           \<lparr>crop_unit = Px, crop_x = 0, crop_y = 0, crop_width = 440, crop_height = 440\<rparr> =
         Inr (toDataURL B
           \<lparr>cwidth = Fin 1919, cheight = Fin 1919, fillStyle = ''#000000'',
            calls = [DrawImageSub u (Fin 0) (Fin 0)
                       (Fin (8444249301319679 / 4398046511104)) (Fin (8444249301319679 / 4398046511104))
                       (Fin 0) (Fin 0) (Fin 1919) (Fin 1919)]\<rparr>)"
  by (simp add: crop_canvas [OF assms] div64_1920_440 mul64_440 mul64_0 canvas_dimension_def
      ToUint32_def del: div64.simps mul64.simps)

text \<open>A negative size is not kept by the canvas: the setter falls back to its default.\<close>

lemma crop_negative_width:
  assumes "context2d B"
  shows "getCroppedImg B demo_img
           \<lparr>crop_unit = Px, crop_x = 10, crop_y = 10, crop_width = - 10, crop_height = 50\<rparr> =
         Inr (toDataURL B
           \<lparr>cwidth = Fin 300, cheight = Fin 100, fillStyle = ''#000000'',
            calls = [DrawImageSub ''photo'' (Fin 20) (Fin 20) (Fin (- 20)) (Fin 100)
                       (Fin 0) (Fin 0) (Fin 300) (Fin 100)]\<rparr>)"
  by (simp add: crop_canvas [OF assms] demo_img_def div64_400_200 mul64_by_2 mul64_neg
      canvas_dimension_def ToUint32_def del: div64.simps mul64.simps)



text \<open>
  Claim C5. Applying a crop of zero width or zero height changes nothing but the dialog
  (\<open>croppingImage\<close> is cleared): every entry keeps its formatted output, the shared canvas
  is not drawn on, and neither the error nor the loading flag moves.
\<close>

theorem zero_area_crop_is_noop:
  assumes "completedCrop s = Some cc" and "crop_width cc = 0 \<or> crop_height cc = 0"
  shows "handleApplyCrop B s =
           (if croppingImage s = None \<or> imgRef s = None then s else s\<lparr>croppingImage := None\<rparr>) \<and>
         images (handleApplyCrop B s) = images s \<and>
         canvasRef (handleApplyCrop B s) = canvasRef s \<and>
         error (handleApplyCrop B s) = error s \<and>
         isLoading (handleApplyCrop B s) = isLoading s"
  using assms by (auto simp add: handleApplyCrop_def split: option.splits)

theorem zero_area_crop_is_noop_witness:
  "completedCrop (cropping_state entry_a empty_crop) = Some empty_crop \<and>
   (crop_width empty_crop = 0 \<or> crop_height empty_crop = 0) \<and>
   images (handleApplyCrop demo_browser (cropping_state entry_a empty_crop)) = [entry_a, entry_b] \<and>
   canvasRef (handleApplyCrop demo_browser (cropping_state entry_a empty_crop)) = Some createCanvas"
proof -
  have a: "completedCrop (cropping_state entry_a empty_crop) = Some empty_crop"
    by (simp add: cropping_state_def)
  have b: "crop_width empty_crop = 0 \<or> crop_height empty_crop = 0"
    by (simp add: empty_crop_def)
  show ?thesis
    using a b zero_area_crop_is_noop [OF a b, of demo_browser]
    by (simp add: cropping_state_def demo_gallery_def initial_state_def)
qed




section \<open>Ingesting a batch\<close>







lemma handleFiles_read_failed:
  assumes "images s = []" and "error s = None"
    and "error (handleFiles_read B uuid s fs) \<noteq> None"
  shows "images (handleFiles_read B uuid s fs) = []"
  using assms
  by (auto simp add: handleFiles_read_def processAndAddImages_def Let_def
      split: sum.splits prod.splits if_splits)

lemma handleFiles_read_none_valid:
  assumes "images s = []" and "filter isImageFile fs = []"
  shows "images (handleFiles_read B uuid s fs) = [] \<and>
         error (handleFiles_read B uuid s fs) = Some ''No valid image files selected.''"
  using assms by (simp add: handleFiles_read_def)



lemma handleFiles_read_urls_failed:
  assumes "formattedImageUrls s = []" and "error s = None"
    and "error (handleFiles_read_urls B s fs) \<noteq> None"
  shows "formattedImageUrls (handleFiles_read_urls B s fs) = []"
  using assms
  by (auto simp add: handleFiles_read_urls_def Let_def split: sum.splits prod.splits if_splits)

lemma handleFiles_read_urls_none_valid:
  assumes "formattedImageUrls s = []" and "filter isImageFile fs = []"
  shows "formattedImageUrls (handleFiles_read_urls B s fs) = [] \<and>
         error (handleFiles_read_urls B s fs) =
           Some ''No valid image files selected. Please upload JPEG, PNG, or GIF files.''"
  using assms by (simp add: handleFiles_read_urls_def)



lemma handleFiles_reset_fields:
  "images (handleFiles_reset s) = [] \<and> error (handleFiles_reset s) = None"
  by (simp add: handleFiles_reset_def)

lemma handleFiles_reset_urls_fields:
  "formattedImageUrls (handleFiles_reset_urls s) = [] \<and> error (handleFiles_reset_urls s) = None"
  by (simp add: handleFiles_reset_urls_def)



















text \<open>
  Claim C10. For a file list that is not empty, \<^verbatim>\<open>handleFiles\<close> first empties the gallery and
  only then filters and reads: the rest of the handler runs from the emptied state, so the
  outcome does not depend on the entries shown before. When no image file is in the batch,
  or when the batch ends with an error, the gallery ends empty.
\<close>

theorem handleFiles_empties_gallery_first:
  assumes "fs \<noteq> []"
  shows "images (handleFiles_reset s) = [] \<and>
         handleFiles B uuid s (Some fs) = handleFiles_read B uuid (handleFiles_reset s) fs \<and>
         handleFiles B uuid (s\<lparr>images := xs\<rparr>) (Some fs) = handleFiles B uuid s (Some fs) \<and>
         (filter isImageFile fs = [] \<longrightarrow> images (handleFiles B uuid s (Some fs)) = []) \<and>
         (error (handleFiles B uuid s (Some fs)) \<noteq> None \<longrightarrow>
            images (handleFiles B uuid s (Some fs)) = []) \<and>
         formattedImageUrls (handleFiles_reset_urls t) = [] \<and>
         handleFiles_urls B t (Some fs) = handleFiles_read_urls B (handleFiles_reset_urls t) fs \<and>
         handleFiles_urls B (t\<lparr>formattedImageUrls := ys\<rparr>) (Some fs) = handleFiles_urls B t (Some fs) \<and>
         (filter isImageFile fs = [] \<longrightarrow> formattedImageUrls (handleFiles_urls B t (Some fs)) = []) \<and>
         (error (handleFiles_urls B t (Some fs)) \<noteq> None \<longrightarrow>
            formattedImageUrls (handleFiles_urls B t (Some fs)) = [])"
proof (intro conjI impI)
  show "images (handleFiles_reset s) = []"
    by (simp add: handleFiles_reset_def)
  show "handleFiles B uuid s (Some fs) = handleFiles_read B uuid (handleFiles_reset s) fs"
    using assms by (simp add: handleFiles_def)
  show "handleFiles B uuid (s\<lparr>images := xs\<rparr>) (Some fs) = handleFiles B uuid s (Some fs)"
    using assms by (simp add: handleFiles_def handleFiles_reset_def)
  show "formattedImageUrls (handleFiles_reset_urls t) = []"
    by (simp add: handleFiles_reset_urls_def)
  show "handleFiles_urls B t (Some fs) = handleFiles_read_urls B (handleFiles_reset_urls t) fs"
    using assms by (simp add: handleFiles_urls_def)
  show "handleFiles_urls B (t\<lparr>formattedImageUrls := ys\<rparr>) (Some fs) = handleFiles_urls B t (Some fs)"
    using assms by (simp add: handleFiles_urls_def handleFiles_reset_urls_def)
next
  assume e: "filter isImageFile fs = []"
  show "images (handleFiles B uuid s (Some fs)) = []"
    using assms handleFiles_read_none_valid [OF _ e, of "handleFiles_reset s" B uuid]
    by (simp add: handleFiles_def handleFiles_reset_fields)
  show "formattedImageUrls (handleFiles_urls B t (Some fs)) = []"
    using assms handleFiles_read_urls_none_valid [OF _ e, of "handleFiles_reset_urls t" B]
    by (simp add: handleFiles_urls_def handleFiles_reset_urls_fields)
next
  assume "error (handleFiles B uuid s (Some fs)) \<noteq> None"
  then have "error (handleFiles_read B uuid (handleFiles_reset s) fs) \<noteq> None"
    using assms by (simp add: handleFiles_def)
  then have "images (handleFiles_read B uuid (handleFiles_reset s) fs) = []"
    by (rule handleFiles_read_failed [rotated 2]) (simp_all add: handleFiles_reset_fields)
  then show "images (handleFiles B uuid s (Some fs)) = []"
    using assms by (simp add: handleFiles_def)
next
  assume "error (handleFiles_urls B t (Some fs)) \<noteq> None"
  then have "error (handleFiles_read_urls B (handleFiles_reset_urls t) fs) \<noteq> None"
    using assms by (simp add: handleFiles_urls_def)
  then have "formattedImageUrls (handleFiles_read_urls B (handleFiles_reset_urls t) fs) = []"
    by (rule handleFiles_read_urls_failed [rotated 2]) (simp_all add: handleFiles_reset_urls_fields)
  then show "formattedImageUrls (handleFiles_urls B t (Some fs)) = []"
    using assms by (simp add: handleFiles_urls_def)
qed

theorem handleFiles_empties_gallery_first_witness:
  "[text_file] \<noteq> [] \<and> images demo_gallery = [entry_a, entry_b] \<and>
   filter isImageFile [text_file] = [] \<and>
   images (handleFiles demo_browser demo_uuid demo_gallery (Some [text_file])) = [] \<and>
   formattedImageUrls demo_urls_state = [''framed-wide''] \<and>
   formattedImageUrls (handleFiles_urls demo_browser demo_urls_state (Some [text_file])) = [] \<and>
   [png_file, corrupt_file] \<noteq> [] \<and>
   error (handleFiles demo_browser demo_uuid demo_gallery (Some [png_file, corrupt_file])) \<noteq> None \<and>
   images (handleFiles demo_browser demo_uuid demo_gallery (Some [png_file, corrupt_file])) = [] \<and>
   error (handleFiles_urls demo_browser demo_urls_state (Some [png_file, corrupt_file])) \<noteq> None \<and>
   formattedImageUrls (handleFiles_urls demo_browser demo_urls_state (Some [png_file, corrupt_file])) = []"
proof -
  have f: "filter isImageFile [text_file] = []"
    by (simp add: isImageFile_def text_file_def)
  have g: "images demo_gallery = [entry_a, entry_b]"
    by (simp add: demo_gallery_def initial_state_def)
  have u: "formattedImageUrls demo_urls_state = [''framed-wide'']"
    by (simp add: demo_urls_state_def initial_urls_state_def)
  have n1: "[text_file] \<noteq> []" and n2: "[png_file, corrupt_file] \<noteq> []"
    by simp_all
  have e1: "error (handleFiles demo_browser demo_uuid demo_gallery (Some [png_file, corrupt_file])) \<noteq> None"
    by (simp add: handleFiles_def handleFiles_reset_def handleFiles_read_def isImageFile_def
        png_file_def corrupt_file_def readSingleFile_def processAndAddImages_def
        demo_gallery_def initial_state_def addBorderToImage_def demo_browser_def Let_def)
  have e2: "error (handleFiles_urls demo_browser demo_urls_state (Some [png_file, corrupt_file])) \<noteq> None"
    by (simp add: handleFiles_urls_def handleFiles_reset_urls_def handleFiles_read_urls_def
        isImageFile_def png_file_def corrupt_file_def readSingleFile_def
        demo_urls_state_def initial_urls_state_def processImageDataUrl_def demo_browser_def Let_def)
  note t1 = handleFiles_empties_gallery_first
              [OF n1, of demo_gallery demo_browser demo_uuid "[]" demo_urls_state "[]"]
  note t2 = handleFiles_empties_gallery_first
              [OF n2, of demo_gallery demo_browser demo_uuid "[]" demo_urls_state "[]"]
  have c1: "images (handleFiles demo_browser demo_uuid demo_gallery (Some [text_file])) = [] \<and>
     formattedImageUrls (handleFiles_urls demo_browser demo_urls_state (Some [text_file])) = []"
    using t1 f by blast
  have c2: "images (handleFiles demo_browser demo_uuid demo_gallery (Some [png_file, corrupt_file])) = [] \<and>
     formattedImageUrls (handleFiles_urls demo_browser demo_urls_state (Some [png_file, corrupt_file])) = []"
    using t2 e1 e2 by blast
  from f g u e1 e2 c1 c2 show ?thesis
    by blast
qed

section \<open>Applying a crop to an entry\<close>

lemma crop_demo_url: "getCroppedImg demo_browser demo_img demo_crop = Inr ''crop''"
proof -
  have "context2d demo_browser"
    by (simp add: demo_browser_def)
  from crop_demo_canvas [OF this] show ?thesis
    by (simp add: demo_browser_def)
qed

lemma handleApplyCrop_success:
  assumes "croppingImage s = Some ci" and "completedCrop s = Some cc" and "imgRef s = Some el"
    and "crop_width cc \<noteq> 0" and "crop_height cc \<noteq> 0"
    and "getCroppedImg B el cc = Inr cu"
    and "addBorderToImage B (canvasRef s) cu = (cv, Inr nu)"
  shows "handleApplyCrop B s =
     s\<lparr>isLoading := False, canvasRef := cv,
       images := map (\<lambda>img. if id' img = id' ci
                             then img\<lparr>formattedSrc := nu, originalSrc := cu\<rparr>
                             else img) (images s),
       croppingImage := None\<rparr>"
  using assms by (simp add: handleApplyCrop_def Let_def)

lemma find_after_replace:
  "find (\<lambda>img. id' img = t)
     (map (\<lambda>img. if id' img = t then img\<lparr>formattedSrc := nu, originalSrc := cu\<rparr> else img) xs) =
   map_option (\<lambda>img. img\<lparr>formattedSrc := nu, originalSrc := cu\<rparr>) (find (\<lambda>img. id' img = t) xs)"
  by (induction xs) auto

lemma find_known_id:
  "\<exists>e \<in> set xs. id' e = t \<Longrightarrow> \<exists>e. find (\<lambda>img. id' img = t) xs = Some e \<and> id' e = t"
  by (induction xs) auto

lemma replace_unknown_id:
  "t \<notin> set (map id' xs) \<Longrightarrow> map (\<lambda>img. if id' img = t then g img else img) xs = xs"
  by (induction xs) auto

text \<open>
  Claim C8. A crop that succeeds replaces \<open>formattedSrc\<close> and \<open>originalSrc\<close> of the target
  entry in one update of \<open>images\<close>; every entry with another identifier stays as it was, at
  its place. Opening the crop dialog on the entry again shows the cropped original.
\<close>

theorem applyCrop_replaces_both_fields:
  assumes "croppingImage s = Some ci" and "completedCrop s = Some cc" and "imgRef s = Some el"
    and "crop_width cc \<noteq> 0" and "crop_height cc \<noteq> 0"
    and "getCroppedImg B el cc = Inr cu"
    and "addBorderToImage B (canvasRef s) cu = (cv, Inr nu)"
  shows "length (images (handleApplyCrop B s)) = length (images s) \<and>
         (\<forall>i < length (images s).
            images (handleApplyCrop B s) ! i =
              (if id' (images s ! i) = id' ci
               then \<lparr>id' = id' ci, originalSrc = cu, formattedSrc = nu\<rparr>
               else images s ! i)) \<and>
         ((\<exists>e \<in> set (images s). id' e = id' ci) \<longrightarrow>
            croppingImage (handleCropClick (handleApplyCrop B s) (id' ci)) =
              Some \<lparr>id' = id' ci, originalSrc = cu, formattedSrc = nu\<rparr> \<and>
            map_option src (imgRef (renderCropDialog B (handleCropClick (handleApplyCrop B s) (id' ci)))) =
              Some cu)"
proof (intro conjI allI impI)
  note r = handleApplyCrop_success [OF assms]
  show "length (images (handleApplyCrop B s)) = length (images s)"
    by (simp add: r)
  show "images (handleApplyCrop B s) ! i =
          (if id' (images s ! i) = id' ci
           then \<lparr>id' = id' ci, originalSrc = cu, formattedSrc = nu\<rparr>
           else images s ! i)" if "i < length (images s)" for i
    using that by (simp add: r)
  assume "\<exists>e \<in> set (images s). id' e = id' ci"
  then obtain e where e: "find (\<lambda>img. id' img = id' ci) (images s) = Some e" and i: "id' e = id' ci"
    using find_known_id by blast
  have c: "croppingImage (handleCropClick (handleApplyCrop B s) (id' ci)) =
        Some (e\<lparr>formattedSrc := nu, originalSrc := cu\<rparr>)"
    by (simp add: r handleCropClick_def find_after_replace e)
  with i show "croppingImage (handleCropClick (handleApplyCrop B s) (id' ci)) =
        Some \<lparr>id' = id' ci, originalSrc = cu, formattedSrc = nu\<rparr>"
    by simp
  from c show "map_option src (imgRef (renderCropDialog B (handleCropClick (handleApplyCrop B s) (id' ci)))) =
        Some cu"
    by (simp add: renderCropDialog_def split: prod.splits)
qed

theorem applyCrop_replaces_both_fields_witness:
  "croppingImage (cropping_state entry_a demo_crop) = Some entry_a \<and>
   completedCrop (cropping_state entry_a demo_crop) = Some demo_crop \<and>
   imgRef (cropping_state entry_a demo_crop) = Some demo_img \<and>
   crop_width demo_crop \<noteq> 0 \<and> crop_height demo_crop \<noteq> 0 \<and>
   getCroppedImg demo_browser demo_img demo_crop = Inr ''crop'' \<and>
   snd (addBorderToImage demo_browser (canvasRef (cropping_state entry_a demo_crop)) ''crop'') =
     Inr ''framed-crop'' \<and>
   images (cropping_state entry_a demo_crop) =
     [\<lparr>id' = ''a'', originalSrc = ''wide'', formattedSrc = ''framed-wide''\<rparr>, entry_b] \<and>
   images (handleApplyCrop demo_browser (cropping_state entry_a demo_crop)) =
     [\<lparr>id' = ''a'', originalSrc = ''crop'', formattedSrc = ''framed-crop''\<rparr>, entry_b] \<and>
   croppingImage (handleCropClick (handleApplyCrop demo_browser (cropping_state entry_a demo_crop)) ''a'') =
     Some \<lparr>id' = ''a'', originalSrc = ''crop'', formattedSrc = ''framed-crop''\<rparr>"
proof -
  let ?s = "cropping_state entry_a demo_crop"
  let ?cv = "fst (addBorderToImage demo_browser (canvasRef ?s) ''crop'')"
  have h1: "croppingImage ?s = Some entry_a" and h2: "completedCrop ?s = Some demo_crop"
    and h3: "imgRef ?s = Some demo_img"
    by (simp_all add: cropping_state_def)
  have h4: "crop_width demo_crop \<noteq> 0" and h5: "crop_height demo_crop \<noteq> 0"
    by (simp_all add: demo_crop_def)
  have h6: "getCroppedImg demo_browser demo_img demo_crop = Inr ''crop''"
    by (rule crop_demo_url)
  have h7': "snd (addBorderToImage demo_browser (canvasRef ?s) ''crop'') = Inr ''framed-crop''"
    by (simp add: cropping_state_def demo_gallery_def initial_state_def addBorderToImage_def
        demo_browser_def paint_calls Let_def)
  then have h7: "addBorderToImage demo_browser (canvasRef ?s) ''crop'' = (?cv, Inr ''framed-crop'')"
    by (simp add: prod_eq_iff)
  have g: "images ?s = [\<lparr>id' = ''a'', originalSrc = ''wide'', formattedSrc = ''framed-wide''\<rparr>, entry_b]"
    by (simp add: cropping_state_def demo_gallery_def initial_state_def entry_a_def)
  have ia: "id' entry_a = ''a''" and ib: "id' entry_b \<noteq> ''a''"
    by (simp_all add: entry_a_def entry_b_def)
  note t = applyCrop_replaces_both_fields [OF h1 h2 h3 h4 h5 h6 h7]
  from t have len: "length (images (handleApplyCrop demo_browser ?s)) = 2"
    by (simp add: g)
  from t have "images (handleApplyCrop demo_browser ?s) ! 0 =
      \<lparr>id' = ''a'', originalSrc = ''crop'', formattedSrc = ''framed-crop''\<rparr>"
    by (simp add: g ia)
  moreover from t have "images (handleApplyCrop demo_browser ?s) ! 1 = entry_b"
    by (simp add: g ia ib)
  ultimately have im: "images (handleApplyCrop demo_browser ?s) =
      [\<lparr>id' = ''a'', originalSrc = ''crop'', formattedSrc = ''framed-crop''\<rparr>, entry_b]"
    using len by (auto simp add: list_eq_iff_nth_eq less_Suc_eq numeral_2_eq_2)
  from t have "croppingImage (handleCropClick (handleApplyCrop demo_browser ?s) ''a'') =
      Some \<lparr>id' = ''a'', originalSrc = ''crop'', formattedSrc = ''framed-crop''\<rparr>"
    by (simp add: g ia)
  with h1 h2 h3 h4 h5 h6 h7' g im show ?thesis
    by blast
qed

text \<open>
  Claim C9, as stated: cropping an identifier that is not in the gallery fails with an
  error. \<^verbatim>\<open>handleCropClick\<close> on such an identifier returns the state as it was, its error
  unset; and \<^verbatim>\<open>handleApplyCrop\<close> with such an entry in the dialog runs to its end without
  an error.
\<close>

theorem unknown_id_counterexample:
  "''zzz'' \<notin> set (map id' (images demo_gallery)) \<and>
   handleCropClick demo_gallery ''zzz'' = demo_gallery \<and>
   error (handleCropClick demo_gallery ''zzz'') = None \<and>
   croppingImage (cropping_state ghost_entry demo_crop) = Some ghost_entry \<and>
   id' ghost_entry = ''zzz'' \<and>
   error (handleApplyCrop demo_browser (cropping_state ghost_entry demo_crop)) = None"
proof -
  have w: "crop_width demo_crop \<noteq> 0 \<and> crop_height demo_crop \<noteq> 0"
    by (simp add: demo_crop_def)
  obtain cv r where p: "addBorderToImage demo_browser (Some createCanvas) ''crop'' = (cv, r)"
    by (cases "addBorderToImage demo_browser (Some createCanvas) ''crop''")
  have "snd (addBorderToImage demo_browser (Some createCanvas) ''crop'') = Inr ''framed-crop''"
    by (simp add: addBorderToImage_def demo_browser_def paint_calls Let_def)
  with p have r: "r = Inr ''framed-crop''"
    by simp
  have "error (handleApplyCrop demo_browser (cropping_state ghost_entry demo_crop)) = None"
    using w p r
    by (simp add: handleApplyCrop_def cropping_state_def demo_gallery_def initial_state_def
        crop_demo_url Let_def)
  then show ?thesis
    by (simp add: handleCropClick_def demo_gallery_def initial_state_def entry_a_def entry_b_def
        cropping_state_def ghost_entry_def)
qed

text \<open>
  Claim C9, amended: an identifier that is not in the gallery is ignored in silence.
  \<^verbatim>\<open>handleCropClick\<close> leaves the whole state unchanged, and \<^verbatim>\<open>handleApplyCrop\<close> for an entry
  with that identifier leaves every entry of the gallery unchanged.
\<close>

theorem unknown_id_is_ignored:
  assumes "tid \<notin> set (map id' (images s))"
  shows "handleCropClick s tid = s \<and>
         (croppingImage s = Some ci \<and> id' ci = tid \<longrightarrow>
            images (handleApplyCrop B s) = images s)"
proof (intro conjI impI)
  from assms have "find (\<lambda>img. id' img = tid) (images s) = None"
    by (auto simp add: find_None_iff)
  then show "handleCropClick s tid = s"
    by (simp add: handleCropClick_def)
  assume "croppingImage s = Some ci \<and> id' ci = tid"
  with assms show "images (handleApplyCrop B s) = images s"
    by (auto simp add: handleApplyCrop_def Let_def replace_unknown_id
        split: option.splits sum.splits prod.splits)
qed

theorem unknown_id_is_ignored_witness:
  "''zzz'' \<notin> set (map id' (images (cropping_state ghost_entry demo_crop))) \<and>
   croppingImage (cropping_state ghost_entry demo_crop) = Some ghost_entry \<and>
   id' ghost_entry = ''zzz'' \<and>
   handleCropClick (cropping_state ghost_entry demo_crop) ''zzz'' =
     cropping_state ghost_entry demo_crop \<and>
   images (handleApplyCrop demo_browser (cropping_state ghost_entry demo_crop)) = [entry_a, entry_b]"
proof -
  have a: "''zzz'' \<notin> set (map id' (images (cropping_state ghost_entry demo_crop)))"
    by (simp add: cropping_state_def demo_gallery_def initial_state_def entry_a_def entry_b_def)
  have b: "croppingImage (cropping_state ghost_entry demo_crop) = Some ghost_entry \<and>
           id' ghost_entry = ''zzz''"
    by (simp add: cropping_state_def ghost_entry_def)
  have g: "images (cropping_state ghost_entry demo_crop) = [entry_a, entry_b]"
    by (simp add: cropping_state_def demo_gallery_def initial_state_def)
  show ?thesis
    using a b g unknown_id_is_ignored [OF a, of ghost_entry demo_browser]
    by simp
qed

end
